theory Spec2Isabelle
  imports Main "HOL-Library.Multiset" "HOL-Library.Sublist"
begin

section \<open>Python strings as lists of code points\<close>

text \<open>
  A Python \<open>str\<close> is a sequence of Unicode code points, so the model uses lists of natural
  numbers. String literals of the source are written with \<open>u\<close>, which reads an ASCII
  literal as its code points.
\<close>

type_synonym ustr = "nat list"

definition u :: "string \<Rightarrow> ustr" where
  "u s = map of_char s"

text \<open>Truthiness of a string and of an optional string (\<open>if not name\<close>, \<open>if sender\<close>).\<close>

definition truthy :: "ustr option \<Rightarrow> bool" where
  "truthy v = (case v of None \<Rightarrow> False | Some s \<Rightarrow> s \<noteq> [])"

text \<open>
  \<open>str.isspace\<close> for one code point: the whitespace set that \<open>str.strip()\<close> and
  \<open>str.split()\<close> use when called without arguments.
\<close>

definition isspace :: "nat \<Rightarrow> bool" where
  "isspace c \<longleftrightarrow>
     (0x09 \<le> c \<and> c \<le> 0x0D) \<or> (0x1C \<le> c \<and> c \<le> 0x20) \<or> c = 0x85 \<or> c = 0xA0 \<or>
     c = 0x1680 \<or> (0x2000 \<le> c \<and> c \<le> 0x200A) \<or> c = 0x2028 \<or> c = 0x2029 \<or>
     c = 0x202F \<or> c = 0x205F \<or> c = 0x3000"

definition strip :: "ustr \<Rightarrow> ustr" where
  "strip s = rev (dropWhile isspace (rev (dropWhile isspace s)))"

text \<open>\<open>str.split()\<close> without arguments: the maximal runs of non-whitespace.\<close>

function split :: "ustr \<Rightarrow> ustr list" where
  "split s =
     (let s' = dropWhile isspace s
      in if s' = [] then []
         else takeWhile (\<lambda>c. \<not> isspace c) s' # split (dropWhile (\<lambda>c. \<not> isspace c) s'))"
  by pat_completeness auto
termination
proof (relation "measure length")
  show "wf (measure length)" by simp
next
  fix s s' :: ustr
  assume s': "s' = dropWhile isspace s" and ne: "s' \<noteq> []"
  have "\<not> isspace (hd s')"
    using ne hd_dropWhile[of isspace s] by (simp add: s')
  then have "dropWhile (\<lambda>c. \<not> isspace c) s' = dropWhile (\<lambda>c. \<not> isspace c) (tl s')"
    using ne by (cases s') simp_all
  moreover have "length (dropWhile (\<lambda>c. \<not> isspace c) (tl s')) \<le> length (tl s')"
    by (rule length_dropWhile_le)
  ultimately have "length (dropWhile (\<lambda>c. \<not> isspace c) s') \<le> length (tl s')"
    by simp
  also have "\<dots> < length s'" using ne by simp
  also have "\<dots> \<le> length s" by (simp add: s' length_dropWhile_le)
  finally show "(dropWhile (\<lambda>c. \<not> isspace c) s', s) \<in> measure length" by simp
qed

declare split.simps [simp del]

subsection \<open>Case mappings\<close>

text \<open>
  \<open>str.title()\<close> and \<open>str.casefold()\<close> read the case tables of the Unicode database.
  The model carries the entries for the ASCII letters and for the pair U+0250 (small turned
  a) and U+2C6F (capital turned a); any other code point is left as it is. On ASCII
  strings the model therefore computes what Python computes, and general statements about
  case are made for ASCII names.
\<close>

definition is_upper_ascii :: "nat \<Rightarrow> bool" where
  "is_upper_ascii c \<longleftrightarrow> 0x41 \<le> c \<and> c \<le> 0x5A"

definition is_lower_ascii :: "nat \<Rightarrow> bool" where
  "is_lower_ascii c \<longleftrightarrow> 0x61 \<le> c \<and> c \<le> 0x7A"

definition is_cased :: "nat \<Rightarrow> bool" where
  "is_cased c \<longleftrightarrow> is_upper_ascii c \<or> is_lower_ascii c \<or> c = 0x250 \<or> c = 0x2C6F"

definition to_lower :: "nat \<Rightarrow> nat" where
  "to_lower c = (if is_upper_ascii c then c + 32 else if c = 0x2C6F then 0x250 else c)"

definition to_title :: "nat \<Rightarrow> nat" where
  "to_title c = (if is_lower_ascii c then c - 32 else if c = 0x250 then 0x2C6F else c)"

definition casefold :: "ustr \<Rightarrow> ustr" where
  "casefold s = map to_lower s"

text \<open>
  \<open>str.title()\<close>: a character that follows a cased character is lower-cased, any other
  character is title-cased.
\<close>

fun title_from :: "bool \<Rightarrow> ustr \<Rightarrow> ustr" where
  "title_from prev [] = []"
| "title_from prev (c # cs) =
     (if prev then to_lower c else to_title c) # title_from (is_cased c) cs"

definition title :: "ustr \<Rightarrow> ustr" where
  "title s = title_from False s"

section \<open>Sender canonicalisation\<close>

text \<open>\<open>USER_MAP\<close>, in the order of the source.\<close>

definition USER_MAP :: "(ustr \<times> ustr) list" where
  "USER_MAP =
     [(u ''dias'', u ''Dias''),
      (u ''asanali'', u ''Asanali''),
      (u ''arseniy'', u ''Arseniy''),
      (u ''maxat'', u ''Maxat''),
      (u ''maksat'', u ''Maxat'')]"

text \<open>
  The character class of \<open>canonical_sender\<close>'s substitution, item by item as the pattern
  lists them: \<open>A-Z\<close>, \<open>a-z\<close>, U+06AF, the range \<open>?\<close> to U+06AF, U+00F4, U+06AF, the range
  U+0651 to U+2018, \<open>?\<close>, U+06AF, \<open>?\<close>, U+2018 and the apostrophe.
\<close>

definition name_char :: "nat \<Rightarrow> bool" where
  "name_char c \<longleftrightarrow>
     (0x41 \<le> c \<and> c \<le> 0x5A) \<or> (0x61 \<le> c \<and> c \<le> 0x7A) \<or> c = 0x6AF \<or>
     (0x3F \<le> c \<and> c \<le> 0x6AF) \<or> c = 0xF4 \<or> c = 0x6AF \<or>
     (0x651 \<le> c \<and> c \<le> 0x2018) \<or> c = 0x3F \<or> c = 0x6AF \<or> c = 0x3F \<or>
     c = 0x2018 \<or> c = 0x27"

definition canonical_sender :: "ustr \<Rightarrow> ustr option" where
  "canonical_sender name =
     (if name = [] then None
      else
        let cleaned = strip (map (\<lambda>c. if name_char c then c else 0x20) name);
            parts = split cleaned
        in case parts of
             [] \<Rightarrow> None
           | p # _ \<Rightarrow>
               (let key = casefold p
                in case map_of USER_MAP key of
                     Some v \<Rightarrow> Some v
                   | None \<Rightarrow> Some (title p)))"

section \<open>Message nodes\<close>

text \<open>
  \<open>parse_message\<close> reads a markup node only through a fixed set of selectors and
  attribute look-ups. A node is modelled by what those look-ups return:
  \<^item> \<open>n_class\<close>: \<open>msg.get("class", [])\<close>;
  \<^item> \<open>n_id\<close>: \<open>msg.get("id")\<close>;
  \<^item> \<open>n_date\<close>: \<open>msg.select_one("div.pull_right.date.details")\<close>; \<open>None\<close> when there is
    no such element, \<open>Some None\<close> when the element has no \<open>title\<close> attribute, and
    \<open>Some (Some t)\<close> when its \<open>title\<close> attribute is \<open>t\<close>;
  \<^item> \<open>n_from_name\<close>: the text of \<open>div.from_name\<close>, when the element exists;
  \<^item> \<open>n_reply_to\<close>: \<open>div.reply_to\<close>, when it exists, with its first \<open>a\<close> element, when
    there is one;
  \<^item> \<open>n_text\<close>: the text of \<open>div.text\<close>, when the element exists;
  \<^item> \<open>n_media_wrap\<close>: \<open>div.media_wrap\<close>, when it exists, with the class list of its first
    \<open>div\<close> or \<open>a\<close> descendant that has a class containing \<open>media_\<close>, when there is one;
  \<^item> \<open>n_full_text\<close>: \<open>msg.get_text(" ", strip=True)\<close>.
\<close>

record link =
  href :: "ustr option"
  onclick :: "ustr option"

record node =
  n_class :: "ustr list"
  n_id :: "ustr option"
  n_date :: "ustr option option"
  n_from_name :: "ustr option"
  n_reply_to :: "link option option"
  n_text :: "ustr option"
  n_media_wrap :: "ustr list option option"
  n_full_text :: ustr

text \<open>The \<open>title\<close> attribute of the date element, when both exist.\<close>

definition title_attr :: "node \<Rightarrow> ustr option" where
  "title_attr msg = (case n_date msg of None \<Rightarrow> None | Some a \<Rightarrow> a)"

subsection \<open>Integers in attribute values\<close>

text \<open>
  The digit class \<open>\d\<close> is modelled for the ASCII digits, which is what the identifiers of
  an export consist of.
\<close>

definition is_digit :: "nat \<Rightarrow> bool" where
  "is_digit c \<longleftrightarrow> 0x30 \<le> c \<and> c \<le> 0x39"

definition int_of_digits :: "ustr \<Rightarrow> int" where
  "int_of_digits ds = foldl (\<lambda>a d. 10 * a + int (d - 0x30)) 0 ds"

text \<open>\<open>re.search(r"(\d+)", s)\<close>: the first maximal run of digits.\<close>

definition search_digits :: "ustr \<Rightarrow> ustr option" where
  "search_digits s =
     (let r = dropWhile (\<lambda>c. \<not> is_digit c) s
      in if r = [] then None else Some (takeWhile is_digit r))"

text \<open>
  \<open>re.search(r"(-?\d+)", s)\<close>: the leftmost digit run, with the minus sign before it when
  there is one. The result is the sign and the digits.
\<close>

fun search_signed :: "ustr \<Rightarrow> (bool \<times> ustr) option" where
  "search_signed [] = None"
| "search_signed (c # cs) =
     (if is_digit c then Some (False, takeWhile is_digit (c # cs))
      else if c = 0x2D \<and> (case cs of [] \<Rightarrow> False | d # _ \<Rightarrow> is_digit d)
        then Some (True, takeWhile is_digit cs)
      else search_signed cs)"

definition get_default :: "'a option \<Rightarrow> 'a \<Rightarrow> 'a" where
  "get_default v d = (case v of None \<Rightarrow> d | Some x \<Rightarrow> x)"

definition extract_reply_to :: "link option option \<Rightarrow> int option" where
  "extract_reply_to reply_div =
     (case reply_div of
        None \<Rightarrow> None
      | Some None \<Rightarrow> None
      | Some (Some lnk) \<Rightarrow>
          (let candidate = get_default (href lnk) [] @ [0x20] @ get_default (onclick lnk) []
           in case search_signed candidate of
                None \<Rightarrow> None
              | Some (neg, ds) \<Rightarrow>
                  Some (abs (if neg then - int_of_digits ds else int_of_digits ds))))"

subsection \<open>Media detection\<close>

definition MEDIA_TYPE_MAP :: "(ustr \<times> ustr) list" where
  "MEDIA_TYPE_MAP =
     [(u ''media_audio_file'', u ''audio''),
      (u ''media_file'', u ''document''),
      (u ''media_game'', u ''game''),
      (u ''media_live_location'', u ''live_location''),
      (u ''media_location'', u ''location''),
      (u ''media_photo'', u ''photo''),
      (u ''media_poll'', u ''poll''),
      (u ''media_video'', u ''video''),
      (u ''media_voice_message'', u ''voice'')]"

definition detect_media_type :: "ustr list option option \<Rightarrow> ustr option" where
  "detect_media_type media_wrap =
     (case media_wrap of
        None \<Rightarrow> None
      | Some None \<Rightarrow> None
      | Some (Some classes) \<Rightarrow>
          (case find (\<lambda>cls. prefix (u ''media_'') cls \<and> cls \<noteq> u ''media_wrap'') classes of
             None \<Rightarrow> None
           | Some cls \<Rightarrow> Some (get_default (map_of MEDIA_TYPE_MAP cls) (u ''media''))))"

section \<open>The message parser\<close>

record msg_record =
  message_id :: "int option"
  date_text :: ustr
  sender :: ustr
  sender_canonical :: "ustr option"
  body :: ustr
  content_type :: ustr
  reply_to :: "int option"

definition is_service :: "node \<Rightarrow> bool" where
  "is_service msg \<longleftrightarrow> u ''service'' \<in> set (n_class msg)"

text \<open>The stripped \<open>title\<close> attribute, \<open>None\<close> when the element or the attribute is missing.\<close>

definition node_date_text :: "node \<Rightarrow> ustr option" where
  "node_date_text msg =
     (case n_date msg of
        None \<Rightarrow> None
      | Some None \<Rightarrow> None
      | Some (Some t) \<Rightarrow> Some (strip t))"

definition node_msg_id :: "node \<Rightarrow> int option" where
  "node_msg_id msg =
     (case n_id msg of
        None \<Rightarrow> None
      | Some raw \<Rightarrow>
          (if raw = [] then None
           else case search_digits raw of
                  None \<Rightarrow> None
                | Some ds \<Rightarrow> Some (int_of_digits ds)))"

text \<open>
  \<open>parse_message\<close> returns the record, when the node yields one, and the next continuation
  state (last sender, last canonical sender).
\<close>

definition parse_message ::
  "node \<Rightarrow> ustr option \<Rightarrow> ustr option \<Rightarrow> msg_record option \<times> ustr option \<times> ustr option" where
  "parse_message msg last_sender last_sender_canonical =
     (let msg_id = node_msg_id msg;
          date = node_date_text msg
      in if \<not> truthy date then (None, last_sender, last_sender_canonical)
         else
           let sender0 = (case n_from_name msg of Some s \<Rightarrow> Some s | None \<Rightarrow> last_sender);
               sender_canon =
                 (if truthy sender0 then canonical_sender (get_default sender0 [])
                  else last_sender_canonical);
               sender1 = (if truthy sender0 then get_default sender0 [] else u ''Unknown'');
               reply = extract_reply_to (n_reply_to msg);
               text0 = (case n_text msg of Some t \<Rightarrow> t | None \<Rightarrow> []);
               media_type = detect_media_type (n_media_wrap msg);
               ctype =
                 (if is_service msg then u ''service''
                  else if truthy media_type then get_default media_type []
                  else if text0 \<noteq> [] then u ''text''
                  else u ''unknown'');
               text1 = (if is_service msg \<and> text0 = [] then n_full_text msg else text0);
               next_sender = (if \<not> is_service msg then Some sender1 else last_sender);
               next_sender_canonical =
                 (if \<not> is_service msg then sender_canon else last_sender_canonical)
           in (Some \<lparr> message_id = msg_id,
                       date_text = get_default date [],
                       sender = sender1,
                       sender_canonical = sender_canon,
                       body = text1,
                       content_type = ctype,
                       reply_to = reply \<rparr>,
               next_sender, next_sender_canonical))"

section \<open>Export files and the record stream\<close>









text \<open>The inner loop of \<open>load_chat_records\<close> over the nodes of one file.\<close>

fun parse_nodes ::
  "node list \<Rightarrow> msg_record list \<Rightarrow> ustr option \<Rightarrow> ustr option \<Rightarrow>
   msg_record list \<times> ustr option \<times> ustr option" where
  "parse_nodes [] records last_sender last_sender_canonical =
     (records, last_sender, last_sender_canonical)"
| "parse_nodes (msg # msgs) records last_sender last_sender_canonical =
     (case parse_message msg last_sender last_sender_canonical of
        (parsed, ls, lc) \<Rightarrow>
          parse_nodes msgs
            (case parsed of None \<Rightarrow> records | Some r \<Rightarrow> records @ [r]) ls lc)"



section \<open>The record table\<close>

text \<open>
  Timestamps are nanoseconds since the epoch, as in a \<open>datetime64[ns]\<close> column.
  \<open>pd.to_datetime(..., errors="coerce", dayfirst=True)\<close> is a parameter \<open>to_datetime\<close> of
  the table builder: it returns \<open>None\<close> (\<open>NaT\<close>) for text it cannot parse.
\<close>

record row =
  df_message_id :: "int option"
  df_date :: int
  df_sender :: ustr
  df_sender_canonical :: ustr
  df_text :: ustr
  df_content_type :: ustr
  df_reply_to :: "int option"
  df_word_count :: nat
  df_char_count :: nat
  df_day :: int
  df_hour :: int
  df_is_reply :: bool

definition ns_per_hour :: int where
  "ns_per_hour = 3600 * 1000000000"

definition ns_per_day :: int where
  "ns_per_day = 24 * ns_per_hour"





section \<open>Aggregations\<close>

subsection \<open>Conversation starters\<close>

text \<open>\<open>Series.diff()\<close>: the first entry is \<open>NaT\<close>, every other the difference to its predecessor.\<close>

fun diff :: "int list \<Rightarrow> int option list" where
  "diff [] = []"
| "diff (x # xs) = None # map (\<lambda>(a, b). Some (b - a)) (zip (x # xs) xs)"

text \<open>Comparison of a possibly missing time delta with a \<open>timedelta\<close>: \<open>NaT > t\<close> is false.\<close>

definition gt_timedelta :: "int option \<Rightarrow> int \<Rightarrow> bool" where
  "gt_timedelta d t = (case d of None \<Rightarrow> False | Some v \<Rightarrow> v > t)"

definition six_hours :: int where
  "six_hours = 6 * ns_per_hour"

text \<open>
  \<open>sort_values("date")\<close>: ascending by timestamp. \<open>sort_key\<close> keeps rows with equal
  timestamps in their order; nothing below depends on the order among such rows.
\<close>

definition df_sorted :: "row list \<Rightarrow> row list" where
  "df_sorted user_df = sort_key df_date user_df"

definition time_diff :: "row list \<Rightarrow> int option list" where
  "time_diff user_df = diff (map df_date (df_sorted user_df))"

definition starter_mask :: "row list \<Rightarrow> bool list" where
  "starter_mask user_df = map (\<lambda>d. gt_timedelta d six_hours) (time_diff user_df)"

text \<open>Boolean indexing: the rows of the sorted table whose mask entry is true.\<close>

definition conversation_starters :: "row list \<Rightarrow> row list" where
  "conversation_starters user_df =
     map fst (filter snd (zip (df_sorted user_df) (starter_mask user_df)))"

text \<open>
  \<open>value_counts()\<close> as the count of each value; the order of the resulting series is not
  represented.
\<close>

definition starters_per_user :: "row list \<Rightarrow> ustr \<Rightarrow> nat" where
  "starters_per_user user_df =
     count_list (map df_sender_canonical (conversation_starters user_df))"

subsection \<open>Length distribution\<close>

definition count_where :: "('a \<Rightarrow> bool) \<Rightarrow> 'a list \<Rightarrow> nat" where
  "count_where P xs = length (filter P xs)"

definition length_distribution :: "row list \<Rightarrow> (ustr \<times> nat) list" where
  "length_distribution user_df =
     [(u ''0-10'', count_where (\<lambda>r. df_word_count r \<le> 10) user_df),
      (u ''11-50'', count_where (\<lambda>r. df_word_count r > 10 \<and> df_word_count r \<le> 50) user_df),
      (u ''51-100'', count_where (\<lambda>r. df_word_count r > 50 \<and> df_word_count r \<le> 100) user_df),
      (u ''100-500'', count_where (\<lambda>r. df_word_count r > 100 \<and> df_word_count r \<le> 500) user_df),
      (u ''500+'', count_where (\<lambda>r. df_word_count r > 500) user_df)]"

subsection \<open>Inactive days\<close>

text \<open>\<open>pd.date_range(start, stop)\<close> on calendar days: every day from \<open>start\<close> to \<open>stop\<close>.\<close>

definition date_range :: "int \<Rightarrow> int \<Rightarrow> int list" where
  "date_range start stop = [start..stop]"

definition inactive_days :: "row list \<Rightarrow> int list" where
  "inactive_days user_df =
     (let days = map df_day user_df;
          all_days = date_range (Min (set days)) (Max (set days))
      in sorted_list_of_set (set all_days - set days))"

subsection \<open>The result\<close>




section \<open>Auxiliary notions and example inputs\<close>




text \<open>
  Example nodes: a message of \<open>Dias K.\<close>, a service entry with a timestamp, a continuation
  message without sender element, and a node whose \<open>title\<close> attribute is one space.
\<close>

definition dias_node :: node where
  "dias_node =
     \<lparr> n_class = [u ''message'', u ''default'', u ''clearfix''],
       n_id = Some (u ''message17''),
       n_date = Some (Some (u ''21.01.2023 18:30:05'')),
       n_from_name = Some (u ''Dias K.''),
       n_reply_to = None,
       n_text = Some (u ''hello''),
       n_media_wrap = None,
       n_full_text = u ''18:30 Dias K. hello'' \<rparr>"

definition service_node :: node where
  "service_node =
     \<lparr> n_class = [u ''message'', u ''service''],
       n_id = Some (u ''message-3''),
       n_date = Some (Some (u ''21.01.2023 18:31:00'')),
       n_from_name = None,
       n_reply_to = None,
       n_text = None,
       n_media_wrap = None,
       n_full_text = u ''Asanali joined the group'' \<rparr>"

definition joined_node :: node where
  "joined_node =
     \<lparr> n_class = [u ''message'', u ''default'', u ''clearfix'', u ''joined''],
       n_id = Some (u ''message18''),
       n_date = Some (Some (u ''21.01.2023 18:32:10'')),
       n_from_name = None,
       n_reply_to = None,
       n_text = Some (u ''anyone here''),
       n_media_wrap = None,
       n_full_text = u ''18:32 anyone here'' \<rparr>"

definition blank_title_node :: node where
  "blank_title_node = joined_node \<lparr> n_date := Some (Some (u '' '')) \<rparr>"

definition voice_node :: node where
  "voice_node =
     joined_node \<lparr> n_text := None,
       n_media_wrap :=
         Some (Some [u ''media'', u ''clearfix'', u ''pull_left'', u ''media_voice_message'']) \<rparr>"


definition text_row :: "int \<Rightarrow> ustr \<Rightarrow> ustr \<Rightarrow> row" where
  "text_row d who t =
     \<lparr> df_message_id = None, df_date = d, df_sender = who, df_sender_canonical = who,
       df_text = t, df_content_type = u ''text'', df_reply_to = None,
       df_word_count = length (split t), df_char_count = length t,
       df_day = d div ns_per_day, df_hour = (d mod ns_per_day) div ns_per_hour,
       df_is_reply = False \<rparr>"

definition example_user_df :: "row list" where
  "example_user_df =
     [text_row 1674331200000000000 (u ''Maxat'') (u ''back again''),
      text_row 1674291600000000000 (u ''Dias'') (u ''good morning''),
      text_row 1674293400000000000 (u ''Dias'') (u ''anyone''),
      text_row 1674295200000000000 (u ''Asanali'') (u ''yes''),
      text_row 1674548100000000000 (u ''Dias'') (u ''three days later'')]"








section \<open>Splitting and stripping\<close>

lemma split_unfold:
  "split s =
     (if dropWhile isspace s = [] then []
      else takeWhile (\<lambda>c. \<not> isspace c) (dropWhile isspace s)
           # split (dropWhile (\<lambda>c. \<not> isspace c) (dropWhile isspace s)))"
  by (subst split.simps) (simp add: Let_def)







section \<open>Properties of the case mappings\<close>















section \<open>Sender canonicalisation: results\<close>

lemmas canon_eval = canonical_sender_def u_def name_char_def strip_def isspace_def split_unfold
  casefold_def to_lower_def to_title_def is_upper_ascii_def is_lower_ascii_def is_cased_def
  USER_MAP_def title_def





lemma canonical_sender_Dias_K: "canonical_sender (u ''Dias K.'') = Some (u ''Dias'')"
  by (simp add: canon_eval)









section \<open>The message parser: results\<close>



lemma parse_message_reject:
  "\<not> truthy (node_date_text msg) \<Longrightarrow> parse_message msg ls lc = (None, ls, lc)"
  by (simp add: parse_message_def)

lemma parse_message_accept:
  "truthy (node_date_text msg) \<Longrightarrow> \<exists>r. fst (parse_message msg ls lc) = Some r"
  by (simp add: parse_message_def Let_def)

lemma fst_parse_message_None:
  "fst (parse_message msg ls lc) = None \<longleftrightarrow> \<not> truthy (node_date_text msg)"
  using parse_message_reject[of msg ls lc] parse_message_accept[of msg ls lc] by auto

lemma parse_message_service:
  "is_service msg \<Longrightarrow> snd (parse_message msg ls lc) = (ls, lc)"
  by (simp add: parse_message_def Let_def)

lemma truthy_iff: "truthy v \<longleftrightarrow> (\<exists>s. v = Some s \<and> s \<noteq> [])"
  by (cases v) (simp_all add: truthy_def)


lemmas node_eval = title_attr_def node_date_text_def truthy_def strip_def isspace_def u_def
  dias_node_def service_node_def joined_node_def blank_title_node_def is_service_def





lemma get_default_simps: "get_default None d = d" "get_default (Some x) d = x"
  by (simp_all add: get_default_def)

lemma MEDIA_TYPE_MAP_nonempty: "map_of MEDIA_TYPE_MAP k = Some v \<Longrightarrow> v \<noteq> []"
proof -
  assume "map_of MEDIA_TYPE_MAP k = Some v"
  then have "(k, v) \<in> set MEDIA_TYPE_MAP" by (rule map_of_SomeD)
  then show ?thesis unfolding MEDIA_TYPE_MAP_def by (auto simp: u_def)
qed

lemma detect_media_type_nonempty:
  assumes "detect_media_type w = Some m"
  shows "m \<noteq> []"
proof -
  from assms obtain cls where m: "m = get_default (map_of MEDIA_TYPE_MAP cls) (u ''media'')"
    by (auto simp: detect_media_type_def split: option.splits)
  show ?thesis
  proof (cases "map_of MEDIA_TYPE_MAP cls")
    case None
    then show ?thesis by (simp add: m get_default_def u_def)
  next
    case (Some v)
    then show ?thesis using MEDIA_TYPE_MAP_nonempty[OF Some] by (simp add: m get_default_def)
  qed
qed

lemma truthy_detect_media_type:
  "truthy (detect_media_type w) \<longleftrightarrow> detect_media_type w \<noteq> None"
  using detect_media_type_nonempty[of w] by (cases "detect_media_type w") (simp_all add: truthy_def)

text \<open>
  Claim C4: for every node that yields a record the content type is \<open>service\<close> for a
  service node, else the detected media type when there is one, else \<open>text\<close> when the body
  text is not empty, else \<open>unknown\<close>; the body of a service node with empty body text is
  the text content of the whole node.
\<close>

theorem content_type_resolution:
  assumes "parse_message msg ls lc = (Some r, ls', lc')"
  shows "content_type r =
           (if is_service msg then u ''service''
            else case detect_media_type (n_media_wrap msg) of
                   Some m \<Rightarrow> m
                 | None \<Rightarrow> if get_default (n_text msg) [] \<noteq> [] then u ''text'' else u ''unknown'') \<and>
         body r =
           (if is_service msg \<and> get_default (n_text msg) [] = [] then n_full_text msg
            else get_default (n_text msg) [])"
proof -
  have d: "truthy (node_date_text msg)"
    using assms parse_message_reject[of msg ls lc] by auto
  have t: "(case n_text msg of Some t \<Rightarrow> t | None \<Rightarrow> []) = get_default (n_text msg) []"
    by (simp add: get_default_def split: option.splits)
  have r: "r = the (fst (parse_message msg ls lc))" using assms by simp
  show ?thesis
  proof (cases "detect_media_type (n_media_wrap msg)")
    case None
    then show ?thesis unfolding r using d
      by (simp add: parse_message_def Let_def t truthy_def)
  next
    case (Some m)
    then have "m \<noteq> []" by (rule detect_media_type_nonempty)
    then show ?thesis unfolding r using d Some
      by (simp add: parse_message_def Let_def t truthy_def get_default_simps)
  qed
qed



theorem content_type_resolution_witness:
  "fst (parse_message voice_node None None) \<noteq> None \<and>
   content_type (the (fst (parse_message voice_node None None))) = u ''voice'' \<and>
   body (the (fst (parse_message voice_node None None))) = [] \<and>
   fst (parse_message service_node None None) \<noteq> None \<and>
   content_type (the (fst (parse_message service_node None None))) = u ''service'' \<and>
   body (the (fst (parse_message service_node None None))) = u ''Asanali joined the group''"
proof -
  have dv: "truthy (node_date_text voice_node)"
    by (simp add: voice_node_def node_eval)
  then obtain r where r: "fst (parse_message voice_node None None) = Some r"
    using parse_message_accept by blast
  then have pr: "parse_message voice_node None None =
      (Some r, fst (snd (parse_message voice_node None None)), snd (snd (parse_message voice_node None None)))"
    by (metis prod.collapse)
  have mv: "detect_media_type (n_media_wrap voice_node) = Some (u ''voice'')"
    by (simp add: voice_node_def joined_node_def detect_media_type_def MEDIA_TYPE_MAP_def
        get_default_def u_def)
  have sv: "\<not> is_service voice_node" "n_text voice_node = None"
    by (simp_all add: voice_node_def node_eval)
  have ds: "truthy (node_date_text service_node)"
    by (simp add: node_eval)
  then obtain q where q: "fst (parse_message service_node None None) = Some q"
    using parse_message_accept by blast
  then have pq: "parse_message service_node None None =
      (Some q, fst (snd (parse_message service_node None None)), snd (snd (parse_message service_node None None)))"
    by (metis prod.collapse)
  have ss: "is_service service_node" "n_text service_node = None"
    "n_full_text service_node = u ''Asanali joined the group''"
    by (simp_all add: node_eval)
  show ?thesis
    using content_type_resolution[OF pr] content_type_resolution[OF pq] r q mv sv ss
    by (simp add: get_default_simps)
qed

lemma parse_nodes_append:
  "parse_nodes (xs @ ys) recs ls lc =
     (case parse_nodes xs recs ls lc of (recs', ls', lc') \<Rightarrow> parse_nodes ys recs' ls' lc')"
  by (induction xs arbitrary: recs ls lc) (simp_all split: prod.splits)

lemma parse_nodes_services:
  "\<forall>s \<in> set ss. is_service s \<Longrightarrow>
     \<exists>recs'. parse_nodes (ss @ rest) recs ls lc = parse_nodes rest recs' ls lc"
proof (induction ss arbitrary: recs)
  case Nil
  then show ?case by auto
next
  case (Cons s ss)
  then have "snd (parse_message s ls lc) = (ls, lc)" by (simp add: parse_message_service)
  then obtain p where p: "parse_message s ls lc = (p, ls, lc)"
    by (metis prod.collapse)
  show ?case using Cons.IH[of "case p of None \<Rightarrow> recs | Some r \<Rightarrow> recs @ [r]"] Cons.prems
    by (simp add: p)
qed

lemma parse_message_updates:
  assumes "\<not> is_service msg" and "fst (parse_message msg ls lc) = Some r"
  shows "snd (parse_message msg ls lc) = (Some (sender r), sender_canonical r)"
proof -
  have d: "truthy (node_date_text msg)"
    using assms(2) fst_parse_message_None[of msg ls lc] by simp
  have r: "r = the (fst (parse_message msg ls lc))" using assms(2) by simp
  show ?thesis unfolding r using d assms(1) by (simp add: parse_message_def Let_def)
qed

lemma parse_message_named:
  assumes "n_from_name msg = Some s" and "s \<noteq> []" and "truthy (node_date_text msg)"
  shows "\<exists>r. fst (parse_message msg ls lc) = Some r \<and> sender r = s \<and>
           sender_canonical r = canonical_sender s"
  using assms by (simp add: parse_message_def Let_def truthy_def get_default_simps)

lemma parse_message_inherits:
  assumes "n_from_name msg = None" and "s \<noteq> []" and "truthy (node_date_text msg)"
  shows "\<exists>r. parse_message msg (Some s) lc =
              (Some r, if is_service msg then (Some s, lc) else (Some s, canonical_sender s)) \<and>
           sender r = s \<and> sender_canonical r = canonical_sender s"
  using assms by (simp add: parse_message_def Let_def truthy_def get_default_simps)


lemma continuation_scenario:
  assumes a: "\<not> is_service a" "n_from_name a = Some (u ''Dias K.'')" "truthy (node_date_text a)"
    and ss: "\<forall>s \<in> set ss. is_service s"
    and b: "n_from_name b = None" "truthy (node_date_text b)"
  shows "\<exists>recs' r. fst (parse_nodes (a # ss @ [b]) recs ls lc) = recs' @ [r] \<and>
           sender r = u ''Dias K.'' \<and> sender_canonical r = Some (u ''Dias'')"
proof -
  have ne: "u ''Dias K.'' \<noteq> []" by (simp add: u_def)
  obtain ra where ra: "fst (parse_message a ls lc) = Some ra" "sender ra = u ''Dias K.''"
    "sender_canonical ra = Some (u ''Dias'')"
    using parse_message_named[OF a(2) ne a(3), of ls lc] canonical_sender_Dias_K by auto
  have "snd (parse_message a ls lc) = (Some (u ''Dias K.''), Some (u ''Dias''))"
    using parse_message_updates[OF a(1) ra(1)] ra by simp
  then have pa: "parse_message a ls lc = (Some ra, Some (u ''Dias K.''), Some (u ''Dias''))"
    using ra(1) by (metis prod.collapse)
  obtain recs1 where r1:
    "parse_nodes (ss @ [b]) (recs @ [ra]) (Some (u ''Dias K.'')) (Some (u ''Dias'')) =
     parse_nodes [b] recs1 (Some (u ''Dias K.'')) (Some (u ''Dias''))"
    using parse_nodes_services[OF ss] by blast
  obtain rb st where rb: "parse_message b (Some (u ''Dias K.'')) (Some (u ''Dias'')) = (Some rb, st)"
    "sender rb = u ''Dias K.''" "sender_canonical rb = Some (u ''Dias'')"
    using parse_message_inherits[OF b(1) ne b(2)] canonical_sender_Dias_K by metis
  have "fst (parse_nodes (a # ss @ [b]) recs ls lc) = recs1 @ [rb]"
    by (simp add: pa r1 rb(1) split: prod.splits)
  then show ?thesis using rb by blast
qed

text \<open>
  Claim C1: a service node, and a node that yields no record, return the continuation
  state unchanged; a non-service node that yields a record sets it to the sender and the
  canonical sender of the record. So when a non-service message with sender element
  \<open>Dias K.\<close> is followed by any number of service nodes and then by a message without
  sender element, the record of the last node carries the canonical identity \<open>Dias\<close>.
\<close>

theorem continuation_frame:
  "(is_service msg \<or> fst (parse_message msg ls lc) = None \<longrightarrow>
      snd (parse_message msg ls lc) = (ls, lc)) \<and>
   (\<not> is_service msg \<and> fst (parse_message msg ls lc) = Some r \<longrightarrow>
      snd (parse_message msg ls lc) = (Some (sender r), sender_canonical r)) \<and>
   (\<not> is_service a \<and> n_from_name a = Some (u ''Dias K.'') \<and> truthy (node_date_text a) \<and>
    (\<forall>s \<in> set ss. is_service s) \<and>
    n_from_name b = None \<and> truthy (node_date_text b) \<longrightarrow>
      fst (parse_nodes (a # ss @ [b]) recs ls lc) \<noteq> [] \<and>
      sender_canonical (last (fst (parse_nodes (a # ss @ [b]) recs ls lc))) = Some (u ''Dias''))"
proof (intro conjI impI)
  assume "is_service msg \<or> fst (parse_message msg ls lc) = None"
  then show "snd (parse_message msg ls lc) = (ls, lc)"
    using parse_message_service[of msg ls lc] parse_message_reject[of msg ls lc]
      fst_parse_message_None[of msg ls lc] by auto
next
  assume "\<not> is_service msg \<and> fst (parse_message msg ls lc) = Some r"
  then show "snd (parse_message msg ls lc) = (Some (sender r), sender_canonical r)"
    using parse_message_updates by blast
next
  assume h: "\<not> is_service a \<and> n_from_name a = Some (u ''Dias K.'') \<and> truthy (node_date_text a) \<and>
    (\<forall>s \<in> set ss. is_service s) \<and> n_from_name b = None \<and> truthy (node_date_text b)"
  then obtain recs' r' where "fst (parse_nodes (a # ss @ [b]) recs ls lc) = recs' @ [r']"
    "sender_canonical r' = Some (u ''Dias'')"
    using continuation_scenario[of a ss b recs ls lc] by blast
  then show "fst (parse_nodes (a # ss @ [b]) recs ls lc) \<noteq> []"
    and "sender_canonical (last (fst (parse_nodes (a # ss @ [b]) recs ls lc))) = Some (u ''Dias'')"
    by simp_all
qed

theorem continuation_frame_witness:
  "is_service service_node \<and>
   snd (parse_message service_node None None) = (None, None) \<and>
   \<not> is_service dias_node \<and> n_from_name dias_node = Some (u ''Dias K.'') \<and>
   truthy (node_date_text dias_node) \<and>
   n_from_name joined_node = None \<and> truthy (node_date_text joined_node) \<and>
   sender_canonical (last (fst (parse_nodes (dias_node # [service_node] @ [joined_node]) [] None None))) =
     Some (u ''Dias'')"
proof -
  have h: "is_service service_node" "\<not> is_service dias_node"
    "n_from_name dias_node = Some (u ''Dias K.'')" "truthy (node_date_text dias_node)"
    "n_from_name joined_node = None" "truthy (node_date_text joined_node)"
    by (simp_all add: node_eval)
  show ?thesis
    using h
      continuation_frame[where msg = service_node and ls = None and lc = None
        and a = dias_node and ss = "[service_node]" and b = joined_node and recs = "[]"]
    by simp
qed

section \<open>The record table: results\<close>



















section \<open>Conversation starters: results\<close>


lemma length_diff: "length (diff xs) = length xs"
  by (cases xs) simp_all

lemma diff_nth:
  assumes "i < length xs"
  shows "diff xs ! i = (if i = 0 then None else Some (xs ! i - xs ! (i - 1)))"
proof (cases xs)
  case Nil
  then show ?thesis using assms by simp
next
  case (Cons x ys)
  show ?thesis
  proof (cases i)
    case 0
    then show ?thesis by (simp add: Cons)
  next
    case (Suc j)
    then have j: "j < length ys" using assms Cons by simp
    then have "j < length (zip (x # ys) ys)" by simp
    then show ?thesis using j by (simp add: Cons Suc)
  qed
qed

lemma gt_timedelta_simps:
  "gt_timedelta None t = False" "gt_timedelta (Some v) t = (v > t)"
  by (simp_all add: gt_timedelta_def)

lemma length_df_sorted: "length (df_sorted user_df) = length user_df"
  by (simp add: df_sorted_def)

lemma length_starter_mask: "length (starter_mask user_df) = length user_df"
  by (simp add: starter_mask_def time_diff_def length_diff df_sorted_def)

lemma starter_mask_nth:
  assumes "i < length user_df"
  shows "starter_mask user_df ! i \<longleftrightarrow>
           0 < i \<and> df_date (df_sorted user_df ! i) - df_date (df_sorted user_df ! (i - 1)) > six_hours"
proof -
  let ?s = "df_sorted user_df"
  have i: "i < length (map df_date ?s)" using assms by (simp add: length_df_sorted)
  have "starter_mask user_df ! i = gt_timedelta (diff (map df_date ?s) ! i) six_hours"
    using i by (simp add: starter_mask_def time_diff_def length_diff)
  also have "\<dots> = (0 < i \<and> df_date (?s ! i) - df_date (?s ! (i - 1)) > six_hours)"
    using i by (simp add: diff_nth gt_timedelta_simps)
  finally show ?thesis .
qed

lemma zip_as_map_nth:
  assumes "length ys = length xs"
  shows "zip xs ys = map (\<lambda>i. (xs ! i, ys ! i)) [0..<length xs]"
  using assms by (intro nth_equalityI) simp_all

lemma boolean_indexing:
  assumes "length ys = length xs"
  shows "map fst (filter snd (zip xs ys)) = map ((!) xs) (filter ((!) ys) [0..<length xs])"
  by (simp add: zip_as_map_nth[OF assms] filter_map comp_def)

lemma conversation_starters_index:
  "conversation_starters user_df =
     map ((!) (df_sorted user_df)) (filter ((!) (starter_mask user_df)) [0..<length user_df])"
  using boolean_indexing[of "starter_mask user_df" "df_sorted user_df"]
  by (simp add: conversation_starters_def length_starter_mask length_df_sorted)

lemma count_list_length_filter: "count_list xs k = length (filter (\<lambda>x. x = k) xs)"
  by (induction xs) simp_all

lemma starters_per_user_index:
  "starters_per_user user_df who =
     length (filter (\<lambda>i. starter_mask user_df ! i \<and> df_sender_canonical (df_sorted user_df ! i) = who)
               [0..<length user_df])"
  by (simp add: starters_per_user_def count_list_length_filter conversation_starters_index
      filter_map comp_def conj_commute)

text \<open>
  Claim C5: the participant subset is sorted by timestamp ascending; the row at position
  \<open>i\<close> of the sorted table is a conversation starter if and only if it is not the first row
  and its timestamp exceeds that of the row before it by more than six hours; the starters
  are counted per canonical identity.
\<close>

theorem conversation_starters_rule:
  "sorted (map df_date (df_sorted user_df)) \<and>
   mset (df_sorted user_df) = mset user_df \<and>
   length (starter_mask user_df) = length user_df \<and>
   (\<forall>i < length user_df.
      starter_mask user_df ! i \<longleftrightarrow>
        0 < i \<and>
        df_date (df_sorted user_df ! i) - df_date (df_sorted user_df ! (i - 1)) > 6 * 3600 * 1000000000) \<and>
   conversation_starters user_df =
     map ((!) (df_sorted user_df)) (filter ((!) (starter_mask user_df)) [0..<length user_df]) \<and>
   starters_per_user user_df who =
     length (filter (\<lambda>i. starter_mask user_df ! i \<and> df_sender_canonical (df_sorted user_df ! i) = who)
               [0..<length user_df])"
proof -
  have s: "six_hours = 6 * 3600 * 1000000000" by (simp add: six_hours_def ns_per_hour_def)
  have "sorted (map df_date (df_sorted user_df))" by (simp add: df_sorted_def)
  moreover have "mset (df_sorted user_df) = mset user_df" by (simp add: df_sorted_def)
  moreover have "\<forall>i < length user_df.
      starter_mask user_df ! i \<longleftrightarrow>
        0 < i \<and>
        df_date (df_sorted user_df ! i) - df_date (df_sorted user_df ! (i - 1)) > 6 * 3600 * 1000000000"
    using starter_mask_nth[of _ user_df] unfolding s by blast
  ultimately show ?thesis
    using length_starter_mask conversation_starters_index starters_per_user_index by blast
qed


lemma df_sorted_example:
  "df_sorted example_user_df =
     [text_row 1674291600000000000 (u ''Dias'') (u ''good morning''),
      text_row 1674293400000000000 (u ''Dias'') (u ''anyone''),
      text_row 1674295200000000000 (u ''Asanali'') (u ''yes''),
      text_row 1674331200000000000 (u ''Maxat'') (u ''back again''),
      text_row 1674548100000000000 (u ''Dias'') (u ''three days later'')]"
  by (simp add: df_sorted_def example_user_df_def text_row_def)

theorem conversation_starters_rule_witness:
  "(3::nat) < length example_user_df \<and> starter_mask example_user_df ! 3 \<and>
   df_sender_canonical (df_sorted example_user_df ! 3) = u ''Maxat'' \<and>
   (0::nat) < length example_user_df \<and> \<not> starter_mask example_user_df ! 0 \<and>
   (1::nat) < length example_user_df \<and> \<not> starter_mask example_user_df ! 1"
proof -
  have l: "length example_user_df = 5" by (simp add: example_user_df_def)
  have d: "df_date (df_sorted example_user_df ! 3) = 1674331200000000000"
    "df_date (df_sorted example_user_df ! 2) = 1674295200000000000"
    "df_date (df_sorted example_user_df ! 1) = 1674293400000000000"
    "df_date (df_sorted example_user_df ! 0) = 1674291600000000000"
    "df_sender_canonical (df_sorted example_user_df ! 3) = u ''Maxat''"
    by (simp_all add: df_sorted_example text_row_def)
  have t: "\<forall>i < length example_user_df.
      starter_mask example_user_df ! i \<longleftrightarrow>
        0 < i \<and>
        df_date (df_sorted example_user_df ! i) - df_date (df_sorted example_user_df ! (i - 1))
          > 6 * 3600 * 1000000000"
    using conversation_starters_rule[of example_user_df] by blast
  have "starter_mask example_user_df ! 3" using t[rule_format, of 3] l d by simp
  moreover have "\<not> starter_mask example_user_df ! 0" using t[rule_format, of 0] l by simp
  moreover have "\<not> starter_mask example_user_df ! 1" using t[rule_format, of 1] l d by simp
  ultimately show ?thesis using l d by simp
qed

section \<open>Length distribution and inactive days: results\<close>


lemma count_where_simps:
  "count_where P [] = 0"
  "count_where P (x # xs) = (if P x then 1 else 0) + count_where P xs"
  by (simp_all add: count_where_def)

lemma count_where_cong:
  assumes "\<And>x. P x = Q x"
  shows "count_where P xs = count_where Q xs"
proof -
  have "P = Q" using assms by (rule ext)
  then show ?thesis by simp
qed

lemma length_distribution_counts:
  "map snd (length_distribution user_df) =
     [count_where (\<lambda>r. df_word_count r \<in> {0..10}) user_df,
      count_where (\<lambda>r. df_word_count r \<in> {11..50}) user_df,
      count_where (\<lambda>r. df_word_count r \<in> {51..100}) user_df,
      count_where (\<lambda>r. df_word_count r \<in> {101..500}) user_df,
      count_where (\<lambda>r. 501 \<le> df_word_count r) user_df]"
proof -
  have "count_where (\<lambda>r. df_word_count r \<le> 10) user_df =
        count_where (\<lambda>r. df_word_count r \<in> {0..10}) user_df"
    by (rule count_where_cong) auto
  moreover have "count_where (\<lambda>r. df_word_count r > 10 \<and> df_word_count r \<le> 50) user_df =
        count_where (\<lambda>r. df_word_count r \<in> {11..50}) user_df"
    by (rule count_where_cong) auto
  moreover have "count_where (\<lambda>r. df_word_count r > 50 \<and> df_word_count r \<le> 100) user_df =
        count_where (\<lambda>r. df_word_count r \<in> {51..100}) user_df"
    by (rule count_where_cong) auto
  moreover have "count_where (\<lambda>r. df_word_count r > 100 \<and> df_word_count r \<le> 500) user_df =
        count_where (\<lambda>r. df_word_count r \<in> {101..500}) user_df"
    by (rule count_where_cong) auto
  moreover have "count_where (\<lambda>r. df_word_count r > 500) user_df =
        count_where (\<lambda>r. 501 \<le> df_word_count r) user_df"
    by (rule count_where_cong) auto
  ultimately show ?thesis unfolding length_distribution_def by simp
qed

lemma length_distribution_sum:
  "sum_list (map snd (length_distribution user_df)) = length user_df"
proof (induction user_df)
  case Nil
  then show ?case by (simp add: length_distribution_def count_where_simps)
next
  case (Cons r rs)
  then show ?case by (simp add: length_distribution_def count_where_simps)
qed

text \<open>
  Claim C8: the five counts of the length distribution are the numbers of rows of the
  participant subset with a word count in 0 to 10, 11 to 50, 51 to 100, 101 to 500 and
  501 or more; a single row is counted in exactly one bucket, and the five counts add up
  to the number of rows.
\<close>

theorem length_distribution_partition:
  "map snd (length_distribution user_df) =
     [count_where (\<lambda>r. df_word_count r \<in> {0..10}) user_df,
      count_where (\<lambda>r. df_word_count r \<in> {11..50}) user_df,
      count_where (\<lambda>r. df_word_count r \<in> {51..100}) user_df,
      count_where (\<lambda>r. df_word_count r \<in> {101..500}) user_df,
      count_where (\<lambda>r. 501 \<le> df_word_count r) user_df] \<and>
   sum_list (map snd (length_distribution [r])) = 1 \<and>
   sum_list (map snd (length_distribution user_df)) = length user_df"
  using length_distribution_counts[of user_df] length_distribution_sum[of user_df]
    length_distribution_sum[of "[r]"] by simp

lemma example_word_counts:
  "map df_word_count example_user_df = [2, 2, 1, 1, 3]"
  by (simp add: example_user_df_def text_row_def split_unfold isspace_def u_def)

theorem length_distribution_partition_witness:
  "map snd (length_distribution example_user_df) = [5, 0, 0, 0, 0] \<and>
   sum_list (map snd (length_distribution example_user_df)) = length example_user_df"
proof -
  have "map snd (length_distribution example_user_df) = [5, 0, 0, 0, 0]"
    using example_word_counts
    by (simp add: length_distribution_def count_where_def example_user_df_def)
  moreover have "sum_list (map snd (length_distribution example_user_df)) = length example_user_df"
    using length_distribution_partition[of example_user_df] by blast
  ultimately show ?thesis by blast
qed

lemma inactive_days_set:
  assumes "user_df \<noteq> []"
  shows "inactive_days user_df =
           sorted_list_of_set ({Min (df_day ` set user_df)..Max (df_day ` set user_df)} - df_day ` set user_df)"
  by (simp add: inactive_days_def date_range_def Let_def)

text \<open>
  Claim C9: for a non-empty participant subset the inactive days are the days between the
  earliest and the latest day of the subset that are not days of the subset, in ascending
  order without repetition; their number plus the number of distinct active days is the
  inclusive span from the earliest to the latest day.
\<close>

theorem inactive_days_span:
  assumes "user_df \<noteq> []"
  shows "inactive_days user_df =
           sorted_list_of_set
             ({Min (df_day ` set user_df)..Max (df_day ` set user_df)} - df_day ` set user_df) \<and>
         sorted (inactive_days user_df) \<and> distinct (inactive_days user_df) \<and>
         int (length (inactive_days user_df)) + int (card (df_day ` set user_df)) =
           Max (df_day ` set user_df) - Min (df_day ` set user_df) + 1"
proof -
  let ?D = "df_day ` set user_df"
  have fin: "finite ?D" by simp
  have ne: "?D \<noteq> {}" using assms by simp
  have sub: "?D \<subseteq> {Min ?D..Max ?D}" using fin by auto
  have le: "Min ?D \<le> Max ?D" using fin ne by simp
  have eq: "inactive_days user_df = sorted_list_of_set ({Min ?D..Max ?D} - ?D)"
    using assms by (rule inactive_days_set)
  have "length (inactive_days user_df) = card ({Min ?D..Max ?D} - ?D)"
    by (simp add: eq)
  also have "\<dots> = card {Min ?D..Max ?D} - card ?D"
    using fin sub by (rule card_Diff_subset)
  finally have len: "length (inactive_days user_df) = card {Min ?D..Max ?D} - card ?D" .
  have cle: "card ?D \<le> card {Min ?D..Max ?D}" using sub by (intro card_mono) simp_all
  have cr: "int (card {Min ?D..Max ?D}) = Max ?D - Min ?D + 1" using le by simp
  have "int (length (inactive_days user_df)) + int (card ?D) = Max ?D - Min ?D + 1"
    using len cle cr by linarith
  then show ?thesis using eq by simp
qed


lemma example_days: "df_day ` set example_user_df = {19378, 19381}"
  by (simp add: example_user_df_def text_row_def ns_per_day_def ns_per_hour_def) 

theorem inactive_days_span_witness:
  "example_user_df \<noteq> [] \<and> inactive_days example_user_df = [19379, 19380] \<and>
   int (length (inactive_days example_user_df)) + int (card (df_day ` set example_user_df)) = 4"
proof -
  have ne: "example_user_df \<noteq> []" by (simp add: example_user_df_def)
  have s: "{19378..19381} - {19378, 19381} = {19379, 19380::int}" by auto
  have "sorted_list_of_set (set [19379, 19380::int]) = [19379, 19380]"
    unfolding sorted_list_of_set_sort_remdups by simp
  then have "sorted_list_of_set {19379, 19380::int} = [19379, 19380]" by simp
  then show ?thesis using inactive_days_span[OF ne] ne by (simp add: example_days s)
qed

section \<open>Export file selection: results\<close>


















end
